theory Spec2Isabelle
  imports Complex_Main "HOL-Library.AList" "HOL-Library.Char_ord" "HOL-Library.List_Lexorder"
begin

section \<open>Triples, entities and edges (utils/dataParser)\<close>

text \<open>
  The n3 parser is an external library: it turns the Turtle text into a sequence of quads or
  throws. The embedding takes the parser as a parameter and models the two extractors on the
  quad sequence. A quad is read only through \<open>subject.value\<close>, \<open>predicate.value\<close> and
  \<open>object.value\<close>, all strings.
\<close>

record quad =
  subject :: string
  predicate :: string
  object :: string

datatype parse_error = ParseError string

record character =
  char_id :: string
  name :: string
  type :: string
  species :: string
  gender :: string
  homeworld :: string
  height :: string
  mass :: string
  hairColor :: string
  skinColor :: string
  eyeColor :: string
  birthYear :: string
  films :: "string list"

record connection =
  source :: string
  target :: string

definition RDF_TYPE :: string where
  "RDF_TYPE = ''http://www.w3.org/1999/02/22-rdf-syntax-ns#type''"

definition SWAPI_CHARACTER :: string where
  "SWAPI_CHARACTER = ''https://swapi.co/vocabulary/Character''"

definition RDFS_LABEL :: string where
  "RDFS_LABEL = ''http://www.w3.org/2000/01/rdf-schema#label''"

definition BO_TYPE :: string where
  "BO_TYPE = ''http://www.ontotext.com/business-object/type''"

definition VOC_GENDER :: string where
  "VOC_GENDER = ''https://swapi.co/vocabulary/gender''"

definition VOC_HOMEWORLD :: string where
  "VOC_HOMEWORLD = ''https://swapi.co/vocabulary/homeworld''"

definition VOC_HEIGHT :: string where
  "VOC_HEIGHT = ''https://swapi.co/vocabulary/height''"

definition VOC_MASS :: string where
  "VOC_MASS = ''https://swapi.co/vocabulary/mass''"

definition VOC_HAIRCOLOR :: string where
  "VOC_HAIRCOLOR = ''https://swapi.co/vocabulary/hairColor''"

definition VOC_SKINCOLOR :: string where
  "VOC_SKINCOLOR = ''https://swapi.co/vocabulary/skinColor''"

definition VOC_EYECOLOR :: string where
  "VOC_EYECOLOR = ''https://swapi.co/vocabulary/eyeColor''"

definition VOC_BIRTHYEAR :: string where
  "VOC_BIRTHYEAR = ''https://swapi.co/vocabulary/birthYear''"

definition VOC_FILM :: string where
  "VOC_FILM = ''https://swapi.co/vocabulary/film''"

definition VOC_CONNECTEDTO :: string where
  "VOC_CONNECTEDTO = ''https://swapi.co/vocabulary/connectedTo''"

subsection \<open>parseCharactersFromTTL\<close>

text \<open>
  \<open>characters\<close> is a JavaScript \<open>Map\<close>: keys are unique and iteration follows insertion
  order. It is an association list here; a new key is appended, an existing entry is
  changed in place.
\<close>

type_synonym characters = "(string \<times> character) list"

definition has :: "characters \<Rightarrow> string \<Rightarrow> bool" where
  "has characters k = (map_of characters k \<noteq> None)"

definition newCharacter :: "string \<Rightarrow> character" where
  "newCharacter s =
     \<lparr>char_id = s, name = '''', type = '''', species = '''', gender = '''', homeworld = '''',
      height = '''', mass = '''', hairColor = '''', skinColor = '''', eyeColor = '''',
      birthYear = '''', films = []\<rparr>"

text \<open>The \<open>switch (predicate)\<close> of the extractor, acting on the record of the subject.\<close>

definition setProperty :: "string \<Rightarrow> string \<Rightarrow> character \<Rightarrow> character" where
  "setProperty p obj c =
     (if p = RDFS_LABEL then c\<lparr>name := obj\<rparr>
      else if p = BO_TYPE then c\<lparr>type := obj, species := obj\<rparr>
      else if p = VOC_GENDER then c\<lparr>gender := obj\<rparr>
      else if p = VOC_HOMEWORLD then c\<lparr>homeworld := obj\<rparr>
      else if p = VOC_HEIGHT then c\<lparr>height := obj\<rparr>
      else if p = VOC_MASS then c\<lparr>mass := obj\<rparr>
      else if p = VOC_HAIRCOLOR then c\<lparr>hairColor := obj\<rparr>
      else if p = VOC_SKINCOLOR then c\<lparr>skinColor := obj\<rparr>
      else if p = VOC_EYECOLOR then c\<lparr>eyeColor := obj\<rparr>
      else if p = VOC_BIRTHYEAR then c\<lparr>birthYear := obj\<rparr>
      else if p = VOC_FILM then
        (if obj \<in> set (films c) then c else c\<lparr>films := films c @ [obj]\<rparr>)
      else c)"

definition isCharacterType :: "quad \<Rightarrow> bool" where
  "isCharacterType q = (predicate q = RDF_TYPE \<and> object q = SWAPI_CHARACTER)"

definition register :: "characters \<Rightarrow> quad \<Rightarrow> characters" where
  "register characters q =
     (if isCharacterType q \<and> \<not> has characters (subject q)
      then characters @ [(subject q, newCharacter (subject q))]
      else characters)"

definition processQuad :: "characters \<Rightarrow> quad \<Rightarrow> characters" where
  "processQuad characters q =
     (let characters' = register characters q in
      if has characters' (subject q)
      then AList.map_entry (subject q) (setProperty (predicate q) (object q)) characters'
      else characters')"

definition charactersFromQuads :: "quad list \<Rightarrow> character list" where
  "charactersFromQuads quads = map snd (foldl processQuad [] quads)"

definition parseCharactersFromTTL ::
  "(string \<Rightarrow> parse_error + quad list) \<Rightarrow> string \<Rightarrow> parse_error + character list" where
  "parseCharactersFromTTL parse ttlContent =
     (case parse ttlContent of
        Inl e \<Rightarrow> Inl e
      | Inr quads \<Rightarrow> Inr (charactersFromQuads quads))"

subsection \<open>parseConnectionsFromTTL\<close>

definition pushConnection :: "connection list \<Rightarrow> quad \<Rightarrow> connection list" where
  "pushConnection connections q =
     (if predicate q = VOC_CONNECTEDTO
      then connections @ [\<lparr>source = subject q, target = object q\<rparr>]
      else connections)"

definition connectionsFromQuads :: "quad list \<Rightarrow> connection list" where
  "connectionsFromQuads quads = foldl pushConnection [] quads"

definition parseConnectionsFromTTL ::
  "(string \<Rightarrow> parse_error + quad list) \<Rightarrow> string \<Rightarrow> parse_error + connection list" where
  "parseConnectionsFromTTL parse ttlContent =
     (case parse ttlContent of
        Inl e \<Rightarrow> Inl e
      | Inr quads \<Rightarrow> Inr (connectionsFromQuads quads))"

section \<open>Edge curve geometry (components/Connection)\<close>

text \<open>
  JavaScript numbers are modelled as real numbers: the layout and curve formulas are
  embedded as the exact arithmetic they denote, without rounding.
\<close>

record position =
  px :: real
  py :: real

text \<open>
  What the component draws: the path \<open>M start C control1, control2, end\<close> and the arrow
  direction \<open>(dx, dy)\<close> at the end point. The source also turns the direction into
  degrees (\<open>angle\<close>); the element never reads that value and it is left out.
\<close>

record curve =
  pathStart :: position
  control1 :: position
  control2 :: position
  pathEnd :: position
  dx :: real
  dy :: real

definition AFFINITY_FACTOR :: real where
  "AFFINITY_FACTOR = 0.85"

text \<open>
  The body of the component with the affinity coefficient as a parameter; the source binds it
  to the adjustable constant \<open>AFFINITY_FACTOR\<close>.
\<close>

definition curveWith :: "real \<Rightarrow> position \<Rightarrow> position \<Rightarrow> real \<Rightarrow> real \<Rightarrow> curve" where
  "curveWith affinity startPos endPos cX cY =
     (let control1X = px startPos + (cX - px startPos) * affinity;
          control1Y = py startPos + (cY - py startPos) * affinity;
          control2X = px endPos + (cX - px endPos) * affinity;
          control2Y = py endPos + (cY - py endPos) * affinity
      in \<lparr>pathStart = startPos,
          control1 = \<lparr>px = control1X, py = control1Y\<rparr>,
          control2 = \<lparr>px = control2X, py = control2Y\<rparr>,
          pathEnd = endPos,
          dx = px endPos - control2X,
          dy = py endPos - control2Y\<rparr>)"

definition Connection :: "position \<Rightarrow> position \<Rightarrow> real \<Rightarrow> real \<Rightarrow> curve" where
  "Connection startPos endPos cX cY = curveWith AFFINITY_FACTOR startPos endPos cX cY"

section \<open>Plain objects used as dictionaries\<close>

text \<open>
  The dashboard keeps \<open>groups\<close>, \<open>positions\<close> and \<open>characterGroups\<close> in plain objects
  (\<open>{}\<close>). A read \<open>obj[k]\<close> of a key that is not an own property goes on to the
  prototype: for the names below it finds the member every object inherits from
  \<open>Object.prototype\<close> (a function, and for \<open>__proto__\<close> the prototype itself), which is
  truthy and has no \<open>push\<close>, \<open>x\<close> or \<open>y\<close>; for any other name it yields
  \<open>undefined\<close>. The names are those of the language standard, with its annex for browsers.
\<close>

definition inheritedNames :: "string list" where
  "inheritedNames =
     [''constructor'', ''hasOwnProperty'', ''isPrototypeOf'', ''propertyIsEnumerable'',
      ''toLocaleString'', ''toString'', ''valueOf'', ''__proto__'', ''__defineGetter__'',
      ''__defineSetter__'', ''__lookupGetter__'', ''__lookupSetter__'']"

datatype js_error = TypeError

text \<open>
  The own properties of \<open>positions\<close> are a finite map. A write \<open>positions[k] = p\<close> creates
  or replaces the own property \<open>k\<close>; for \<open>k = __proto__\<close> it makes \<open>p\<close> the prototype
  of the object instead, after which a read of \<open>__proto__\<close> returns \<open>p\<close> and reads of
  \<open>x\<close> and \<open>y\<close> find the coordinates of \<open>p\<close>. The map keeps such a \<open>p\<close> under
  the key \<open>__proto__\<close>, and \<open>getPosition\<close> is the read \<open>positions[k]\<close>.
\<close>

datatype jsvalue = Pos position | Num real | Inherited | Undefined

definition getPosition :: "(string \<rightharpoonup> position) \<Rightarrow> string \<Rightarrow> jsvalue" where
  "getPosition ps k =
     (case ps k of
        Some p \<Rightarrow> Pos p
      | None \<Rightarrow>
          (case ps ''__proto__'' of
             Some q \<Rightarrow>
               if k = ''x'' then Num (px q)
               else if k = ''y'' then Num (py q)
               else if k \<in> set inheritedNames then Inherited
               else Undefined
           | None \<Rightarrow> if k \<in> set inheritedNames then Inherited else Undefined))"

text \<open>What \<open>!v\<close> tests: an object or a function is truthy, a number unless it is zero.\<close>

fun truthy :: "jsvalue \<Rightarrow> bool" where
  "truthy (Pos p) = True"
| "truthy (Num r) = (r \<noteq> 0)"
| "truthy Inherited = True"
| "truthy Undefined = False"

text \<open>
  The path of a \<open>Connection\<close> element whose \<open>startPos\<close> and \<open>endPos\<close> props are these
  values: the curve when both are position objects; otherwise \<open>x\<close> and \<open>y\<close> of a prop
  are \<open>undefined\<close> and the path data holds coordinates that are not numbers.
\<close>

datatype path = Curve curve | NotANumber

definition connectionPath :: "jsvalue \<Rightarrow> jsvalue \<Rightarrow> real \<Rightarrow> real \<Rightarrow> path" where
  "connectionPath startPos endPos cX cY =
     (case startPos of
        Pos s \<Rightarrow> (case endPos of Pos e \<Rightarrow> Curve (Connection s e cX cY) | _ \<Rightarrow> NotANumber)
      | _ \<Rightarrow> NotANumber)"

section \<open>Radial layout (components/Dashboard)\<close>

text \<open>
  The viewport is \<open>window.innerWidth\<close> by \<open>window.innerHeight\<close>, two pixel counts.
\<close>

record dimensions =
  width :: nat
  height :: nat

definition centerX :: "dimensions \<Rightarrow> real" where
  "centerX d = real (width d) / 2"

definition centerY :: "dimensions \<Rightarrow> real" where
  "centerY d = real (height d) / 2"

definition radius :: "dimensions \<Rightarrow> real" where
  "radius d = real (min (width d) (height d)) * 0.35"

definition onCircle :: "dimensions \<Rightarrow> real \<Rightarrow> position" where
  "onCircle d angle =
     \<lparr>px = centerX d + radius d * cos angle, py = centerY d + radius d * sin angle\<rparr>"


record groupSpan =
  gname :: string
  startAngle :: real
  endAngle :: real
  gcenterX :: real
  gcenterY :: real
  gradius :: real

record charGroup =
  groupKey :: string
  groupIndex :: nat

record layout =
  positions :: "string \<rightharpoonup> position"
  groupInfo :: "groupSpan list option"
  characterGroups :: "string \<rightharpoonup> charGroup"

subsection \<open>Ungrouped layout\<close>

definition placeUngrouped ::
  "dimensions \<Rightarrow> real \<Rightarrow> (string \<rightharpoonup> position) \<Rightarrow> nat \<times> character \<Rightarrow> (string \<rightharpoonup> position)" where
  "placeUngrouped d angleStep acc ic =
     (let angle = real (fst ic) * angleStep - pi / 2
      in acc(char_id (snd ic) \<mapsto> onCircle d angle))"

definition ungroupedLayout :: "dimensions \<Rightarrow> character list \<Rightarrow> layout" where
  "ungroupedLayout d chars =
     (let angleStep = (2 * pi) / real (length chars)
      in \<lparr>positions = foldl (placeUngrouped d angleStep) Map.empty (enumerate 0 chars),
          groupInfo = None,
          characterGroups =
            foldl (\<lambda>acc c. acc(char_id c \<mapsto> \<lparr>groupKey = ''default'', groupIndex = 0\<rparr>))
              Map.empty chars\<rparr>)"

subsection \<open>Grouping\<close>

text \<open>Decimal rendering of a count, as the template literal of the films key does.\<close>

fun toString :: "nat \<Rightarrow> string" where
  "toString n =
     (if n < 10 then [''0123456789'' ! n]
      else toString (n div 10) @ [''0123456789'' ! (n mod 10)])"

definition keyOf :: "string \<Rightarrow> character \<Rightarrow> string" where
  "keyOf gb c =
     (if gb = ''species'' \<and> species c \<noteq> '''' then species c
      else if gb = ''gender'' \<and> gender c \<noteq> '''' then gender c
      else if gb = ''films'' \<and> films c \<noteq> [] then toString (length (films c)) @ '' films''
      else ''Unknown'')"


text \<open>
  \<open>groups\<close> is a plain object from key to member array. Its own properties are an
  association list in insertion order; the keys are read only through
  \<open>Object.keys(groups).sort()\<close>, and sorting distinct keys does not depend on the order
  they come in. The default \<open>sort\<close> compares strings code unit by code unit; here it is
  the lexicographic order of \<open>string\<close> over the order of characters by code.

  One step of the reduce: \<open>if (!acc[key]) acc[key] = []\<close> creates the array when the key
  is neither an own property nor an inherited name; \<open>acc[key].push(char)\<close> then appends
  to the own array, and throws a \<open>TypeError\<close> when the key is still no own property,
  since what the read finds is an inherited member without \<open>push\<close>.
\<close>

type_synonym groups = "(string \<times> character list) list"

definition addToGroup :: "string \<Rightarrow> groups \<Rightarrow> character \<Rightarrow> js_error + groups" where
  "addToGroup gb acc c =
     (let key = keyOf gb c;
          acc' = (if map_of acc key = None \<and> key \<notin> set inheritedNames
                  then acc @ [(key, [])] else acc)
      in if map_of acc' key = None then Inl TypeError
         else Inr (AList.map_entry key (\<lambda>members. members @ [c]) acc'))"

fun reduceGroups :: "string \<Rightarrow> groups \<Rightarrow> character list \<Rightarrow> js_error + groups" where
  "reduceGroups gb acc [] = Inr acc"
| "reduceGroups gb acc (c # cs) =
     (case addToGroup gb acc c of
        Inl e \<Rightarrow> Inl e
      | Inr acc' \<Rightarrow> reduceGroups gb acc' cs)"

definition groupsOf :: "string \<Rightarrow> character list \<Rightarrow> js_error + groups" where
  "groupsOf gb chars = reduceGroups gb [] chars"

definition groupKeys :: "groups \<Rightarrow> string list" where
  "groupKeys gs = sort (map fst gs)"

text \<open>\<open>groups[groupKey]\<close>; every key the layout asks for is an own property.\<close>

definition groupMembers :: "groups \<Rightarrow> string \<Rightarrow> character list" where
  "groupMembers gs k = (case map_of gs k of Some members \<Rightarrow> members | None \<Rightarrow> [])"

subsection \<open>Grouped layout\<close>

definition gapAngle :: real where
  "gapAngle = 0.05"

definition usableAngle :: "groups \<Rightarrow> real" where
  "usableAngle gs = (2 * pi) - gapAngle * real (length (groupKeys gs))"

definition groupAngleSpan :: "groups \<Rightarrow> nat \<Rightarrow> string \<Rightarrow> real" where
  "groupAngleSpan gs totalCharacters k =
     (real (length (groupMembers gs k)) / real totalCharacters) * usableAngle gs"

record loopState =
  lpositions :: "string \<rightharpoonup> position"
  groupInfoArray :: "groupSpan list"
  lcharacterGroups :: "string \<rightharpoonup> charGroup"
  currentAngle :: real

definition placeMember ::
  "dimensions \<Rightarrow> real \<Rightarrow> real \<Rightarrow> string \<Rightarrow> nat \<Rightarrow> loopState \<Rightarrow> nat \<times> character \<Rightarrow> loopState" where
  "placeMember d cur angleStep k gi st ic =
     (let angle = cur + (real (fst ic) + 0.5) * angleStep
      in st\<lparr>lpositions := (lpositions st)(char_id (snd ic) \<mapsto> onCircle d angle),
            lcharacterGroups :=
              (lcharacterGroups st)(char_id (snd ic) \<mapsto> \<lparr>groupKey = k, groupIndex = gi\<rparr>)\<rparr>)"

definition placeGroup ::
  "dimensions \<Rightarrow> groups \<Rightarrow> nat \<Rightarrow> loopState \<Rightarrow> nat \<times> string \<Rightarrow> loopState" where
  "placeGroup d gs totalCharacters st ik =
     (let members = groupMembers gs (snd ik);
          groupSize = length members;
          span = groupAngleSpan gs totalCharacters (snd ik);
          angleStep = span / real groupSize;
          startA = currentAngle st;
          st' = foldl (placeMember d startA angleStep (snd ik) (fst ik)) st (enumerate 0 members);
          endA = startA + span
      in st'\<lparr>groupInfoArray := groupInfoArray st' @
                [\<lparr>gname = snd ik, startAngle = startA, endAngle = endA,
                  gcenterX = centerX d, gcenterY = centerY d, gradius = radius d\<rparr>],
             currentAngle := startA + (span + gapAngle)\<rparr>)"

definition initialLoop :: loopState where
  "initialLoop =
     \<lparr>lpositions = Map.empty, groupInfoArray = [], lcharacterGroups = Map.empty,
      currentAngle = - pi / 2\<rparr>"

definition groupedLoop :: "dimensions \<Rightarrow> groups \<Rightarrow> nat \<Rightarrow> loopState" where
  "groupedLoop d gs totalCharacters =
     foldl (placeGroup d gs totalCharacters) initialLoop (enumerate 0 (groupKeys gs))"

definition groupedLayout :: "dimensions \<Rightarrow> string \<Rightarrow> character list \<Rightarrow> js_error + layout" where
  "groupedLayout d gb chars =
     (case groupsOf gb chars of
        Inl e \<Rightarrow> Inl e
      | Inr gs \<Rightarrow>
          (let st = groupedLoop d gs (length chars)
           in Inr \<lparr>positions = lpositions st, groupInfo = Some (groupInfoArray st),
                   characterGroups = lcharacterGroups st\<rparr>))"

definition computeLayout :: "dimensions \<Rightarrow> string \<Rightarrow> character list \<Rightarrow> js_error + layout" where
  "computeLayout d gb chars =
     (if gb = ''none'' then Inr (ungroupedLayout d chars) else groupedLayout d gb chars)"

text \<open>
  The angular spans of the buckets as the layout emits them, end angle minus start angle
  of each group; none when there is no layout or no grouping.
\<close>

definition bucketSpans :: "js_error + layout \<Rightarrow> real list" where
  "bucketSpans r =
     (case r of
        Inl e \<Rightarrow> []
      | Inr l \<Rightarrow>
          (case groupInfo l of
             None \<Rightarrow> []
           | Some gi \<Rightarrow> map (\<lambda>g. endAngle g - startAngle g) gi))"

text \<open>
  The scenario of four entities in two buckets: A, B and C share one species, D has
  another, and the key of the bucket of three sorts first.
\<close>

definition scenarioABCD :: "character list" where
  "scenarioABCD =
     [(newCharacter ''A'')\<lparr>species := ''Droid''\<rparr>, (newCharacter ''B'')\<lparr>species := ''Droid''\<rparr>,
      (newCharacter ''C'')\<lparr>species := ''Droid''\<rparr>, (newCharacter ''D'')\<lparr>species := ''Human''\<rparr>]"


section \<open>Interaction state and render pass (components/Dashboard)\<close>

text \<open>The \<open>useState\<close> cells of the component, and its event handlers as transitions.\<close>

record dashboard =
  selectedCharacter :: "character option"
  hoveredCharacterId :: "string option"
  isSidebarOpen :: bool
  isSettingsOpen :: bool
  groupBy :: string
  viewport :: dimensions

definition initialDashboard :: "dimensions \<Rightarrow> dashboard" where
  "initialDashboard d =
     \<lparr>selectedCharacter = None, hoveredCharacterId = None, isSidebarOpen = False,
      isSettingsOpen = False, groupBy = ''none'', viewport = d\<rparr>"

definition handleResize :: "dimensions \<Rightarrow> dashboard \<Rightarrow> dashboard" where
  "handleResize d st = st\<lparr>viewport := d\<rparr>"

definition handleNodeClick :: "character \<Rightarrow> dashboard \<Rightarrow> dashboard" where
  "handleNodeClick c st = st\<lparr>selectedCharacter := Some c, isSidebarOpen := True\<rparr>"

definition handleSidebarClose :: "dashboard \<Rightarrow> dashboard" where
  "handleSidebarClose st = st\<lparr>isSidebarOpen := False\<rparr>"

definition handleSettingsToggle :: "dashboard \<Rightarrow> dashboard" where
  "handleSettingsToggle st = st\<lparr>isSettingsOpen := \<not> isSettingsOpen st\<rparr>"

definition handleGroupByChange :: "string \<Rightarrow> dashboard \<Rightarrow> dashboard" where
  "handleGroupByChange v st = st\<lparr>groupBy := v\<rparr>"

definition onMouseEnter :: "character \<Rightarrow> dashboard \<Rightarrow> dashboard" where
  "onMouseEnter c st = st\<lparr>hoveredCharacterId := Some (char_id c)\<rparr>"

definition onMouseLeave :: "dashboard \<Rightarrow> dashboard" where
  "onMouseLeave st = st\<lparr>hoveredCharacterId := None\<rparr>"

text \<open>
  \<open>connectedCharacters\<close>: empty when \<open>hoveredCharacterId\<close> is falsy (\<open>null\<close> or the empty
  string), otherwise the other endpoint of every connection that touches the hovered node.
\<close>

definition addConnected :: "string \<Rightarrow> string set \<Rightarrow> connection \<Rightarrow> string set" where
  "addConnected h acc conn =
     (let acc' = (if source conn = h then insert (target conn) acc else acc)
      in if target conn = h then insert (source conn) acc' else acc')"

definition connectedCharacters :: "string option \<Rightarrow> connection list \<Rightarrow> string set" where
  "connectedCharacters hovered connections =
     (case hovered of
        None \<Rightarrow> {}
      | Some h \<Rightarrow> if h = '''' then {} else foldl (addConnected h) {} connections)"

definition isHighlighted :: "string option \<Rightarrow> connection \<Rightarrow> bool" where
  "isHighlighted hovered conn = (hovered = Some (source conn) \<or> hovered = Some (target conn))"


text \<open>
  One entry of \<open>connections.map\<close>: \<open>null\<close> (here \<open>None\<close>) when one of the two reads of
  \<open>positions\<close> is falsy, otherwise the \<open>Connection\<close> element, given by its path and its
  highlight flag.
\<close>

record connectionView =
  geometry :: path
  highlight :: bool

definition renderConnection ::
  "(string \<rightharpoonup> position) \<Rightarrow> string option \<Rightarrow> dimensions \<Rightarrow> connection \<Rightarrow> connectionView option" where
  "renderConnection ps hovered d conn =
     (let startPos = getPosition ps (source conn);
          endPos = getPosition ps (target conn)
      in if \<not> truthy startPos \<or> \<not> truthy endPos then None
         else Some \<lparr>geometry = connectionPath startPos endPos (centerX d) (centerY d),
                    highlight = isHighlighted hovered conn\<rparr>)"

definition renderConnections ::
  "(string \<rightharpoonup> position) \<Rightarrow> string option \<Rightarrow> dimensions \<Rightarrow> connection list
     \<Rightarrow> connectionView option list" where
  "renderConnections ps hovered d connections = map (renderConnection ps hovered d) connections"

text \<open>
  One entry of \<open>characters.map\<close>: \<open>null\<close> when the read of \<open>positions\<close> is falsy,
  otherwise the node element with the props that depend on the position mapping, the
  hovered id and the connections. The colour prop is computed from the grouping alone and
  is not part of the record; the read of \<open>characterGroups\<close> it starts from finds an
  entry for every entity of the list the layout was computed from.
\<close>

record nodeView =
  node :: character
  nodePosition :: jsvalue
  isHovered :: bool
  isConnectedToHovered :: bool

definition renderNode ::
  "(string \<rightharpoonup> position) \<Rightarrow> string option \<Rightarrow> connection list \<Rightarrow> character \<Rightarrow> nodeView option" where
  "renderNode ps hovered connections c =
     (let position = getPosition ps (char_id c)
      in if \<not> truthy position then None
         else Some \<lparr>node = c, nodePosition = position,
                    isHovered = (hovered = Some (char_id c)),
                    isConnectedToHovered = (char_id c \<in> connectedCharacters hovered connections)\<rparr>)"

definition renderNodes ::
  "(string \<rightharpoonup> position) \<Rightarrow> string option \<Rightarrow> connection list \<Rightarrow> character list
     \<Rightarrow> nodeView option list" where
  "renderNodes ps hovered connections chars = map (renderNode ps hovered connections) chars"

section \<open>Edge extraction\<close>

lemma connectionsFromQuads_foldl:
  "foldl pushConnection acc quads =
     acc @ map (\<lambda>q. \<lparr>source = subject q, target = object q\<rparr>)
             (filter (\<lambda>q. predicate q = VOC_CONNECTEDTO) quads)"
  by (induction quads arbitrary: acc) (simp_all add: pushConnection_def)

lemma connectionsFromQuads_eq:
  "connectionsFromQuads quads =
     map (\<lambda>q. \<lparr>source = subject q, target = object q\<rparr>)
       (filter (\<lambda>q. predicate q = VOC_CONNECTEDTO) quads)"
  by (simp add: connectionsFromQuads_def connectionsFromQuads_foldl)

text \<open>
  C4. The claim: the edge extractor never produces a self-loop edge. The extractor has no
  such check: a connects-to triple whose subject equals its object yields the edge from that
  node to itself.
\<close>

theorem self_loop_emitted:
  "\<lparr>source = ''luke'', target = ''luke''\<rparr>
     \<in> set (connectionsFromQuads
              [\<lparr>subject = ''luke'', predicate = VOC_CONNECTEDTO, object = ''luke''\<rparr>])"
  by (simp add: connectionsFromQuads_def pushConnection_def)

text \<open>
  C4, as the code has it: the extractor emits one edge per connects-to triple, in stream
  order, with the subject as source and the object as target; so every edge of the output
  has distinct endpoints exactly when no connects-to triple of the stream has its subject
  equal to its object.
\<close>

theorem edges_mirror_triples:
  "connectionsFromQuads quads =
     map (\<lambda>q. \<lparr>source = subject q, target = object q\<rparr>)
       (filter (\<lambda>q. predicate q = VOC_CONNECTEDTO) quads)
   \<and> ((\<forall>e \<in> set (connectionsFromQuads quads). source e \<noteq> target e) \<longleftrightarrow>
      (\<forall>q \<in> set quads. predicate q = VOC_CONNECTEDTO \<longrightarrow> subject q \<noteq> object q))"
  by (auto simp add: connectionsFromQuads_eq)

theorem edges_mirror_triples_witness:
  "connectionsFromQuads
     [\<lparr>subject = ''luke'', predicate = VOC_CONNECTEDTO, object = ''leia''\<rparr>,
      \<lparr>subject = ''luke'', predicate = RDFS_LABEL, object = ''luke''\<rparr>]
     = [\<lparr>source = ''luke'', target = ''leia''\<rparr>]
   \<and> list_all (\<lambda>e. source e \<noteq> target e)
       (connectionsFromQuads
          [\<lparr>subject = ''luke'', predicate = VOC_CONNECTEDTO, object = ''leia''\<rparr>,
           \<lparr>subject = ''luke'', predicate = RDFS_LABEL, object = ''luke''\<rparr>])"
  using edges_mirror_triples
    [of "[\<lparr>subject = ''luke'', predicate = VOC_CONNECTEDTO, object = ''leia''\<rparr>,
          \<lparr>subject = ''luke'', predicate = RDFS_LABEL, object = ''luke''\<rparr>]"]
  by (simp add: VOC_CONNECTEDTO_def RDFS_LABEL_def)

section \<open>Edge curve\<close>

text \<open>
  C3. For every pair of endpoints and every centre, the control points are
  \<open>start + (centre - start) * affinity\<close> and \<open>end + (centre - end) * affinity\<close>; at
  affinity 0 they are the endpoints, at affinity 1 both are the centre; the arrow direction
  at the end is \<open>endPos - control2\<close>. The component is this curve at \<open>AFFINITY_FACTOR\<close>.
\<close>

theorem control_points:
  "control1 (curveWith a s e cX cY) =
     \<lparr>px = px s + (cX - px s) * a, py = py s + (cY - py s) * a\<rparr>
   \<and> control2 (curveWith a s e cX cY) =
     \<lparr>px = px e + (cX - px e) * a, py = py e + (cY - py e) * a\<rparr>
   \<and> control1 (curveWith 0 s e cX cY) = s
   \<and> control2 (curveWith 0 s e cX cY) = e
   \<and> control1 (curveWith 1 s e cX cY) = \<lparr>px = cX, py = cY\<rparr>
   \<and> control2 (curveWith 1 s e cX cY) = \<lparr>px = cX, py = cY\<rparr>
   \<and> dx (curveWith a s e cX cY) = px e - px (control2 (curveWith a s e cX cY))
   \<and> dy (curveWith a s e cX cY) = py e - py (control2 (curveWith a s e cX cY))
   \<and> pathStart (curveWith a s e cX cY) = s
   \<and> pathEnd (curveWith a s e cX cY) = e
   \<and> Connection s e cX cY = curveWith AFFINITY_FACTOR s e cX cY"
  by (simp add: curveWith_def Connection_def Let_def)

section \<open>Hover and selection\<close>

text \<open>
  C8. Hover highlight is symmetric: the edge from \<open>a\<close> to \<open>b\<close> is highlighted when
  \<open>a\<close> is hovered if and only if it is highlighted when \<open>b\<close> is hovered (it is, in both
  cases), and the flag of the rendered edge is the same under both.
\<close>

theorem hover_symmetric:
  "(isHighlighted (Some a) \<lparr>source = a, target = b\<rparr> \<longleftrightarrow>
      isHighlighted (Some b) \<lparr>source = a, target = b\<rparr>)
   \<and> isHighlighted (Some a) \<lparr>source = a, target = b\<rparr>
   \<and> map_option highlight (renderConnection ps (Some a) d \<lparr>source = a, target = b\<rparr>) =
      map_option highlight (renderConnection ps (Some b) d \<lparr>source = a, target = b\<rparr>)"
  by (simp add: isHighlighted_def renderConnection_def Let_def)

theorem hover_symmetric_witness:
  "isHighlighted (Some ''A'') \<lparr>source = ''A'', target = ''B''\<rparr>
   \<and> isHighlighted (Some ''B'') \<lparr>source = ''A'', target = ''B''\<rparr>"
  using hover_symmetric
    [where a = "''A''" and b = "''B''" and ps = Map.empty and d = "\<lparr>width = 800, height = 600\<rparr>"]
  by blast

text \<open>
  C9. The claim: closing the detail panel clears the selection as well as the open flag.
  \<open>handleSidebarClose\<close> resets the flag only; after a click and a close the selected
  character is still there.
\<close>

theorem close_keeps_selection:
  "selectedCharacter
     (handleSidebarClose
        (handleNodeClick (newCharacter ''luke'') (initialDashboard \<lparr>width = 800, height = 600\<rparr>)))
   \<noteq> None"
  by (simp add: handleSidebarClose_def handleNodeClick_def)

text \<open>
  C9, as the code has it: a click on a node selects its character and opens the detail
  panel; closing the panel clears the open flag and leaves the selection as it was.
\<close>

theorem select_and_close:
  "selectedCharacter (handleNodeClick c st) = Some c
   \<and> isSidebarOpen (handleNodeClick c st)
   \<and> \<not> isSidebarOpen (handleSidebarClose st)
   \<and> selectedCharacter (handleSidebarClose st) = selectedCharacter st"
  by (simp add: handleSidebarClose_def handleNodeClick_def)

section \<open>Entity extraction\<close>

lemma setProperty_type: "setProperty RDF_TYPE obj c = c"
  by (simp add: setProperty_def RDF_TYPE_def RDFS_LABEL_def BO_TYPE_def VOC_GENDER_def
      VOC_HOMEWORLD_def VOC_HEIGHT_def VOC_MASS_def VOC_HAIRCOLOR_def VOC_SKINCOLOR_def
      VOC_EYECOLOR_def VOC_BIRTHYEAR_def VOC_FILM_def)

lemma map_entry_ident: "(\<And>v. f v = v) \<Longrightarrow> AList.map_entry k f al = al"
  by (induction al) auto

lemma has_processQuad:
  "has (processQuad cs q) k \<longleftrightarrow> has cs k \<or> (isCharacterType q \<and> subject q = k)"
  by (auto simp add: has_def processQuad_def register_def Let_def map_of_map_entry
      split: option.splits)

text \<open>A subject is registered after a stream exactly when the stream asserts its type.\<close>

lemma has_foldl_processQuad:
  "has (foldl processQuad cs qs) k \<longleftrightarrow>
     has cs k \<or> (\<exists>q \<in> set qs. isCharacterType q \<and> subject q = k)"
  by (induction qs arbitrary: cs) (auto simp add: has_processQuad)

lemma type_triple_noop:
  "isCharacterType t \<Longrightarrow> has cs (subject t) \<Longrightarrow> processQuad cs t = cs"
  by (simp add: processQuad_def register_def isCharacterType_def setProperty_type
      map_entry_ident)

lemma unregistered_noop:
  "\<not> isCharacterType a \<Longrightarrow> \<not> has cs (subject a) \<Longrightarrow> processQuad cs a = cs"
  by (simp add: processQuad_def register_def)

text \<open>
  C5. The claim: swapping a type triple and an attribute triple of the same subject yields
  the same entities. The extractor is a single pass that writes an attribute only when its
  subject is already registered: a label that comes before the type assertion is lost, the
  same label after it is kept.
\<close>

theorem attribute_before_type_lost:
  "charactersFromQuads
     [\<lparr>subject = ''luke'', predicate = RDFS_LABEL, object = ''Luke''\<rparr>,
      \<lparr>subject = ''luke'', predicate = RDF_TYPE, object = SWAPI_CHARACTER\<rparr>]
   \<noteq> charactersFromQuads
     [\<lparr>subject = ''luke'', predicate = RDF_TYPE, object = SWAPI_CHARACTER\<rparr>,
      \<lparr>subject = ''luke'', predicate = RDFS_LABEL, object = ''Luke''\<rparr>]"
  by (simp add: charactersFromQuads_def processQuad_def register_def isCharacterType_def
      has_def setProperty_def newCharacter_def RDF_TYPE_def RDFS_LABEL_def)

text \<open>
  C5, as the code has it: once an earlier type assertion has registered the subject,
  swapping a later type triple with the triple of the same subject next to it does not
  change the result; and a triple that is not a type assertion and whose subject no earlier
  triple has registered is ignored, as if it were not in the stream.
\<close>

theorem type_order_after_registration:
  "(isCharacterType t \<and> subject a = subject t
      \<and> (\<exists>r \<in> set pre. isCharacterType r \<and> subject r = subject t)
     \<longrightarrow> charactersFromQuads (pre @ t # a # post) = charactersFromQuads (pre @ a # t # post))
   \<and> (\<not> isCharacterType a \<and> \<not> (\<exists>r \<in> set pre. isCharacterType r \<and> subject r = subject a)
     \<longrightarrow> charactersFromQuads (pre @ a # post) = charactersFromQuads (pre @ post))"
proof (intro conjI impI)
  assume h: "isCharacterType t \<and> subject a = subject t
      \<and> (\<exists>r \<in> set pre. isCharacterType r \<and> subject r = subject t)"
  let ?cs = "foldl processQuad [] pre"
  from h have reg: "has ?cs (subject t)"
    by (auto simp add: has_foldl_processQuad)
  then have reg': "has (processQuad ?cs a) (subject t)"
    by (simp add: has_processQuad)
  from h reg have "processQuad ?cs t = ?cs"
    by (simp add: type_triple_noop)
  moreover from h reg' have "processQuad (processQuad ?cs a) t = processQuad ?cs a"
    by (simp add: type_triple_noop)
  ultimately show "charactersFromQuads (pre @ t # a # post) = charactersFromQuads (pre @ a # t # post)"
    by (simp add: charactersFromQuads_def)
next
  assume h: "\<not> isCharacterType a \<and> \<not> (\<exists>r \<in> set pre. isCharacterType r \<and> subject r = subject a)"
  let ?cs = "foldl processQuad [] pre"
  have "\<not> has [] (subject a)"
    by (simp add: has_def)
  with h have "\<not> has ?cs (subject a)"
    by (simp add: has_foldl_processQuad)
  with h have "processQuad ?cs a = ?cs"
    by (simp add: unregistered_noop)
  then show "charactersFromQuads (pre @ a # post) = charactersFromQuads (pre @ post)"
    by (simp add: charactersFromQuads_def)
qed

theorem type_order_after_registration_witness:
  "charactersFromQuads
     [\<lparr>subject = ''luke'', predicate = RDF_TYPE, object = SWAPI_CHARACTER\<rparr>,
      \<lparr>subject = ''luke'', predicate = RDF_TYPE, object = SWAPI_CHARACTER\<rparr>,
      \<lparr>subject = ''luke'', predicate = RDFS_LABEL, object = ''Luke''\<rparr>]
   = charactersFromQuads
     [\<lparr>subject = ''luke'', predicate = RDF_TYPE, object = SWAPI_CHARACTER\<rparr>,
      \<lparr>subject = ''luke'', predicate = RDFS_LABEL, object = ''Luke''\<rparr>,
      \<lparr>subject = ''luke'', predicate = RDF_TYPE, object = SWAPI_CHARACTER\<rparr>]
   \<and> charactersFromQuads
     [\<lparr>subject = ''luke'', predicate = RDFS_LABEL, object = ''Luke''\<rparr>,
      \<lparr>subject = ''luke'', predicate = RDF_TYPE, object = SWAPI_CHARACTER\<rparr>]
   = charactersFromQuads
     [\<lparr>subject = ''luke'', predicate = RDF_TYPE, object = SWAPI_CHARACTER\<rparr>]"
  using type_order_after_registration
    [of "\<lparr>subject = ''luke'', predicate = RDF_TYPE, object = SWAPI_CHARACTER\<rparr>"
        "\<lparr>subject = ''luke'', predicate = RDFS_LABEL, object = ''Luke''\<rparr>"
        "[\<lparr>subject = ''luke'', predicate = RDF_TYPE, object = SWAPI_CHARACTER\<rparr>]"
        "[]"]
    type_order_after_registration
    [of "\<lparr>subject = ''luke'', predicate = RDF_TYPE, object = SWAPI_CHARACTER\<rparr>"
        "\<lparr>subject = ''luke'', predicate = RDFS_LABEL, object = ''Luke''\<rparr>"
        "[]"
        "[\<lparr>subject = ''luke'', predicate = RDF_TYPE, object = SWAPI_CHARACTER\<rparr>]"]
  by (simp add: isCharacterType_def RDF_TYPE_def RDFS_LABEL_def)


section \<open>Render pass\<close>

lemma addConnected_foldl:
  "foldl (addConnected h) S conns =
     S \<union> target ` {c \<in> set conns. source c = h} \<union> source ` {c \<in> set conns. target c = h}"
  by (induction conns arbitrary: S) (auto simp add: addConnected_def Let_def)

lemma connectedCharacters_drop_skipped:
  assumes skipped: "\<not> truthy (getPosition ps (source conn)) \<or> \<not> truthy (getPosition ps (target conn))"
    and hov: "case hovered of None \<Rightarrow> True | Some h \<Rightarrow> truthy (getPosition ps h)"
    and pos: "truthy (getPosition ps i)"
  shows "i \<in> connectedCharacters hovered (before @ conn # after) \<longleftrightarrow>
         i \<in> connectedCharacters hovered (before @ after)"
  using assms unfolding connectedCharacters_def addConnected_foldl
  by (auto split: option.splits)

text \<open>
  A read of \<open>positions\<close> is \<open>undefined\<close> for a key that is no own property, unless the
  key is an inherited name or the object has been given a position as its prototype.
\<close>

lemma getPosition_Undefined:
  "ps k = None \<Longrightarrow> ps ''__proto__'' = None \<Longrightarrow> k \<notin> set inheritedNames
     \<Longrightarrow> getPosition ps k = Undefined"
  by (simp add: getPosition_def)

lemma getPosition_inherited:
  "ps k = None \<Longrightarrow> ps ''__proto__'' = None \<Longrightarrow> k \<in> set inheritedNames
     \<Longrightarrow> getPosition ps k = Inherited"
  by (simp add: getPosition_def)

text \<open>
  When one of the two reads is falsy the edge yields no element, the other edges are
  rendered as they are without it (an edge is rendered exactly when both reads are truthy),
  and so are the nodes, the hovered id being that of a rendered node when there is one.
\<close>

lemma falsy_endpoint_skipped:
  assumes "\<not> truthy (getPosition ps (source conn)) \<or> \<not> truthy (getPosition ps (target conn))"
  shows "renderConnection ps hovered d conn = None
    \<and> renderConnections ps hovered d (before @ conn # after) =
        renderConnections ps hovered d before @ None # renderConnections ps hovered d after
    \<and> ((renderConnection ps hovered d e \<noteq> None) =
        (truthy (getPosition ps (source e)) \<and> truthy (getPosition ps (target e))))
    \<and> ((case hovered of None \<Rightarrow> True | Some h \<Rightarrow> truthy (getPosition ps h)) \<longrightarrow>
        renderNodes ps hovered (before @ conn # after) chars =
        renderNodes ps hovered (before @ after) chars)"
proof (intro conjI impI)
  show "renderConnection ps hovered d conn = None"
    using assms by (auto simp add: renderConnection_def Let_def)
  then show "renderConnections ps hovered d (before @ conn # after) =
        renderConnections ps hovered d before @ None # renderConnections ps hovered d after"
    by (simp add: renderConnections_def)
next
  show "(renderConnection ps hovered d e \<noteq> None) =
        (truthy (getPosition ps (source e)) \<and> truthy (getPosition ps (target e)))"
    by (auto simp add: renderConnection_def Let_def)
next
  assume hov: "case hovered of None \<Rightarrow> True | Some h \<Rightarrow> truthy (getPosition ps h)"
  have "renderNode ps hovered (before @ conn # after) c = renderNode ps hovered (before @ after) c"
    for c
  proof (cases "truthy (getPosition ps (char_id c))")
    case False
    then show ?thesis by (simp add: renderNode_def Let_def)
  next
    case True
    from connectedCharacters_drop_skipped [OF assms hov True]
    show ?thesis by (simp add: renderNode_def Let_def)
  qed
  then show "renderNodes ps hovered (before @ conn # after) chars =
        renderNodes ps hovered (before @ after) chars"
    by (simp add: renderNodes_def)
qed

text \<open>
  C7. The claim: an edge whose target has no position in the mapping yields no geometry.
  The guard tests the read \<open>positions[conn.target]\<close> for truthiness. With the one entity
  \<open>X\<close> laid out, the id \<open>constructor\<close> has no position in the mapping, yet the read
  finds the inherited member, the guard lets the edge from \<open>X\<close> to \<open>constructor\<close>
  through, and an element is emitted whose path has coordinates that are not numbers.
\<close>

theorem inherited_name_edge_rendered:
  "computeLayout \<lparr>width = 800, height = 600\<rparr> ''none'' [newCharacter ''X'']
     = Inr (ungroupedLayout \<lparr>width = 800, height = 600\<rparr> [newCharacter ''X''])
   \<and> positions (ungroupedLayout \<lparr>width = 800, height = 600\<rparr> [newCharacter ''X''])
       ''constructor'' = None
   \<and> renderConnection
       (positions (ungroupedLayout \<lparr>width = 800, height = 600\<rparr> [newCharacter ''X'']))
       None \<lparr>width = 800, height = 600\<rparr> \<lparr>source = ''X'', target = ''constructor''\<rparr>
     = Some \<lparr>geometry = NotANumber, highlight = False\<rparr>"
  by (simp add: computeLayout_def ungroupedLayout_def placeUngrouped_def newCharacter_def
      renderConnection_def getPosition_def inheritedNames_def connectionPath_def
      isHighlighted_def Let_def)

theorem inherited_name_edge_rendered_witness:
  "renderConnection
     (positions (ungroupedLayout \<lparr>width = 800, height = 600\<rparr> [newCharacter ''X'']))
     None \<lparr>width = 800, height = 600\<rparr> \<lparr>source = ''X'', target = ''constructor''\<rparr>
   \<noteq> None"
  using inherited_name_edge_rendered by simp

section \<open>Grouping and layout\<close>

subsection \<open>The groups object\<close>

lemma addToGroup_plain:
  assumes "keyOf gb c \<notin> set inheritedNames"
  shows "addToGroup gb acc c =
     Inr (AList.map_entry (keyOf gb c) (\<lambda>members. members @ [c])
            (if map_of acc (keyOf gb c) = None then acc @ [(keyOf gb c, [])] else acc))"
proof (cases "map_of acc (keyOf gb c)")
  case None
  then have "map_of (acc @ [(keyOf gb c, [])]) (keyOf gb c) = Some []"
    by (simp add: map_add_Some_iff)
  with None assms show ?thesis
    by (simp add: addToGroup_def Let_def)
next
  case (Some ms)
  then show ?thesis
    by (simp add: addToGroup_def Let_def)
qed

lemma addToGroup_throws:
  assumes "keyOf gb c \<in> set inheritedNames" and "fst ` set acc \<inter> set inheritedNames = {}"
  shows "addToGroup gb acc c = Inl TypeError"
proof -
  from assms have "keyOf gb c \<notin> fst ` set acc" by blast
  then have "map_of acc (keyOf gb c) = None"
    by (simp add: map_of_eq_None_iff)
  with assms(1) show ?thesis
    by (simp add: addToGroup_def Let_def)
qed

lemma addToGroup_Inr:
  assumes "keyOf gb c \<notin> set inheritedNames"
  shows "\<exists>acc'. addToGroup gb acc c = Inr acc'
    \<and> (\<forall>k. groupMembers acc' k = groupMembers acc k @ (if k = keyOf gb c then [c] else []))
    \<and> fst ` set acc' = insert (keyOf gb c) (fst ` set acc)
    \<and> (distinct (map fst acc) \<longrightarrow> distinct (map fst acc'))"
proof -
  let ?acc' = "AList.map_entry (keyOf gb c) (\<lambda>members. members @ [c])
            (if map_of acc (keyOf gb c) = None then acc @ [(keyOf gb c, [])] else acc)"
  have "addToGroup gb acc c = Inr ?acc'"
    using assms by (rule addToGroup_plain)
  moreover have "groupMembers ?acc' k = groupMembers acc k @ (if k = keyOf gb c then [c] else [])"
    for k
    by (auto simp add: groupMembers_def map_of_map_entry split: option.splits)
  moreover have "fst ` set ?acc' = insert (keyOf gb c) (fst ` set acc)"
    by (auto simp add: dom_map_entry map_of_eq_None_iff)
  moreover have "distinct (map fst acc) \<longrightarrow> distinct (map fst ?acc')"
    by (auto simp add: distinct_map_entry map_of_eq_None_iff)
  ultimately show ?thesis by blast
qed

lemma reduceGroups_returns:
  assumes "\<forall>c \<in> set cs. keyOf gb c \<notin> set inheritedNames" and "distinct (map fst acc)"
  shows "\<exists>gs. reduceGroups gb acc cs = Inr gs
     \<and> distinct (map fst gs)
     \<and> fst ` set gs = fst ` set acc \<union> keyOf gb ` set cs
     \<and> (\<forall>k. groupMembers gs k = groupMembers acc k @ filter (\<lambda>c. keyOf gb c = k) cs)"
  using assms
proof (induction cs arbitrary: acc)
  case Nil
  then show ?case by simp
next
  case (Cons c cs)
  then have "keyOf gb c \<notin> set inheritedNames" by simp
  from addToGroup_Inr [OF this, of acc]
  obtain acc' where step: "addToGroup gb acc c = Inr acc'"
    and mem: "\<And>k. groupMembers acc' k = groupMembers acc k @ (if k = keyOf gb c then [c] else [])"
    and keys: "fst ` set acc' = insert (keyOf gb c) (fst ` set acc)"
    and dist: "distinct (map fst acc) \<Longrightarrow> distinct (map fst acc')"
    by blast
  from Cons.prems have rest: "\<forall>c \<in> set cs. keyOf gb c \<notin> set inheritedNames" by simp
  from Cons.IH [OF rest dist [OF Cons.prems(2)]] obtain gs
    where gs: "reduceGroups gb acc' cs = Inr gs" "distinct (map fst gs)"
      "fst ` set gs = fst ` set acc' \<union> keyOf gb ` set cs"
      "\<forall>k. groupMembers gs k = groupMembers acc' k @ filter (\<lambda>c. keyOf gb c = k) cs"
    by blast
  have "reduceGroups gb acc (c # cs) = Inr gs"
    by (simp add: step gs(1))
  moreover have "fst ` set gs = fst ` set acc \<union> keyOf gb ` set (c # cs)"
    by (simp add: gs(3) keys)
  moreover have "\<forall>k. groupMembers gs k = groupMembers acc k @ filter (\<lambda>c. keyOf gb c = k) (c # cs)"
    by (simp add: gs(4) mem)
  ultimately show ?case using gs(2) by blast
qed

lemma reduceGroups_throws:
  assumes "\<exists>c \<in> set cs. keyOf gb c \<in> set inheritedNames"
    and "fst ` set acc \<inter> set inheritedNames = {}"
  shows "reduceGroups gb acc cs = Inl TypeError"
  using assms
proof (induction cs arbitrary: acc)
  case Nil
  then show ?case by simp
next
  case (Cons c cs)
  show ?case
  proof (cases "keyOf gb c \<in> set inheritedNames")
    case True
    from addToGroup_throws [OF True Cons.prems(2)] show ?thesis by simp
  next
    case False
    from addToGroup_Inr [OF this, of acc]
    obtain acc' where step: "addToGroup gb acc c = Inr acc'"
      and keys: "fst ` set acc' = insert (keyOf gb c) (fst ` set acc)"
      by blast
    from False Cons.prems(1) have rest: "\<exists>c \<in> set cs. keyOf gb c \<in> set inheritedNames"
      by auto
    from False Cons.prems(2) keys have "fst ` set acc' \<inter> set inheritedNames = {}"
      by auto
    from Cons.IH [OF rest this] show ?thesis
      by (simp add: step)
  qed
qed

text \<open>The reduce returns exactly when no entity has an inherited name as its key.\<close>

lemma groupsOf_returns_iff:
  "(\<exists>gs. groupsOf gb chars = Inr gs) \<longleftrightarrow> (\<forall>c \<in> set chars. keyOf gb c \<notin> set inheritedNames)"
proof
  assume ret: "\<exists>gs. groupsOf gb chars = Inr gs"
  show "\<forall>c \<in> set chars. keyOf gb c \<notin> set inheritedNames"
  proof (rule ccontr)
    assume "\<not> (\<forall>c \<in> set chars. keyOf gb c \<notin> set inheritedNames)"
    then have "\<exists>c \<in> set chars. keyOf gb c \<in> set inheritedNames" by blast
    moreover have "fst ` set [] \<inter> set inheritedNames = {}" by simp
    ultimately have "reduceGroups gb [] chars = Inl TypeError"
      by (rule reduceGroups_throws)
    with ret show False by (simp add: groupsOf_def)
  qed
next
  assume "\<forall>c \<in> set chars. keyOf gb c \<notin> set inheritedNames"
  then show "\<exists>gs. groupsOf gb chars = Inr gs"
    using reduceGroups_returns [of chars gb "[]"] by (auto simp add: groupsOf_def)
qed

lemma groupsOf_Inr:
  assumes "groupsOf gb chars = Inr gs"
  shows "distinct (map fst gs)"
    and "fst ` set gs = keyOf gb ` set chars"
    and "groupMembers gs k = filter (\<lambda>c. keyOf gb c = k) chars"
proof -
  from assms have "\<forall>c \<in> set chars. keyOf gb c \<notin> set inheritedNames"
    using groupsOf_returns_iff [of gb chars] by blast
  from reduceGroups_returns [OF this, of "[]"] assms
  have "distinct (map fst gs) \<and> fst ` set gs = keyOf gb ` set chars
     \<and> (\<forall>k. groupMembers gs k = groupMembers [] k @ filter (\<lambda>c. keyOf gb c = k) chars)"
    by (auto simp add: groupsOf_def)
  then show "distinct (map fst gs)" and "fst ` set gs = keyOf gb ` set chars"
    and "groupMembers gs k = filter (\<lambda>c. keyOf gb c = k) chars"
    by (simp_all add: groupMembers_def)
qed

lemma set_groupKeys:
  "groupsOf gb chars = Inr gs \<Longrightarrow> set (groupKeys gs) = keyOf gb ` set chars"
  by (simp add: groupKeys_def groupsOf_Inr(2))

lemma sorted_groupKeys: "sorted (groupKeys gs)"
  by (simp add: groupKeys_def)

lemma distinct_groupKeys: "groupsOf gb chars = Inr gs \<Longrightarrow> distinct (groupKeys gs)"
  by (simp add: groupKeys_def groupsOf_Inr(1))

lemma sum_length_filter_keys:
  "finite K \<Longrightarrow> f ` set cs \<subseteq> K \<Longrightarrow>
     (\<Sum>k\<in>K. length (filter (\<lambda>c. f c = k) cs)) = length cs"
proof (induction cs)
  case Nil
  then show ?case by simp
next
  case (Cons c cs)
  then have "f c \<in> K" and sub: "f ` set cs \<subseteq> K" by auto
  have "(\<Sum>k\<in>K. length (filter (\<lambda>c. f c = k) (c # cs))) =
        (\<Sum>k\<in>K. (if f c = k then 1 else 0) + length (filter (\<lambda>c. f c = k) cs))"
    by (rule sum.cong) auto
  also have "\<dots> = (\<Sum>k\<in>K. if f c = k then 1 else 0) + (\<Sum>k\<in>K. length (filter (\<lambda>c. f c = k) cs))"
    by (simp add: sum.distrib)
  also have "(\<Sum>k\<in>K. if f c = k then 1 else 0) = (1::nat)"
    using \<open>finite K\<close> \<open>f c \<in> K\<close> by simp
  finally show ?case
    using Cons.IH [OF \<open>finite K\<close> sub] by simp
qed

lemma sum_group_sizes:
  assumes "groupsOf gb cs = Inr gs"
  shows "(\<Sum>k\<leftarrow>groupKeys gs. length (groupMembers gs k)) = length cs"
proof -
  have "(\<Sum>k\<leftarrow>groupKeys gs. length (groupMembers gs k)) =
        (\<Sum>k\<in>keyOf gb ` set cs. length (filter (\<lambda>c. keyOf gb c = k) cs))"
    by (simp add: sum_list_distinct_conv_sum_set distinct_groupKeys [OF assms]
        set_groupKeys [OF assms] groupsOf_Inr(3) [OF assms])
  also have "\<dots> = length cs"
    by (rule sum_length_filter_keys) auto
  finally show ?thesis .
qed

subsection \<open>The layout loops\<close>


lemma members_fold_frame:
  "groupInfoArray (foldl (placeMember d cur step k gi) st ics) = groupInfoArray st
   \<and> currentAngle (foldl (placeMember d cur step k gi) st ics) = currentAngle st"
  by (induction ics arbitrary: st) (simp_all add: placeMember_def Let_def)




lemma placeGroup_info:
  "groupInfoArray (placeGroup d gs n st ik) =
     groupInfoArray st @
       [\<lparr>gname = snd ik, startAngle = currentAngle st,
         endAngle = currentAngle st + groupAngleSpan gs n (snd ik),
         gcenterX = centerX d, gcenterY = centerY d, gradius = radius d\<rparr>]"
  by (simp add: placeGroup_def Let_def members_fold_frame)

lemma placeGroup_angle:
  "currentAngle (placeGroup d gs n st ik) =
     currentAngle st + (groupAngleSpan gs n (snd ik) + gapAngle)"
  by (simp add: placeGroup_def Let_def members_fold_frame)



lemma groups_fold_spans:
  "map (\<lambda>g. endAngle g - startAngle g) (groupInfoArray (foldl (placeGroup d gs n) st iks)) =
     map (\<lambda>g. endAngle g - startAngle g) (groupInfoArray st) @
     map (\<lambda>ik. groupAngleSpan gs n (snd ik)) iks"
  by (induction iks arbitrary: st) (simp_all add: placeGroup_info)

lemma groups_fold_names:
  "map gname (groupInfoArray (foldl (placeGroup d gs n) st iks)) =
     map gname (groupInfoArray st) @ map snd iks"
  by (induction iks arbitrary: st) (simp_all add: placeGroup_info)






lemma grouped_spans:
  "map (\<lambda>g. endAngle g - startAngle g) (groupInfoArray (groupedLoop d gs n)) =
     map (groupAngleSpan gs n) (groupKeys gs)"
proof -
  have "map (\<lambda>ik. groupAngleSpan gs n (snd ik)) (enumerate 0 (groupKeys gs)) =
        map (groupAngleSpan gs n) (map snd (enumerate 0 (groupKeys gs)))"
    by (simp only: map_map comp_def)
  then show ?thesis
    by (simp add: groupedLoop_def groups_fold_spans initialLoop_def)
qed

lemma grouped_names: "map gname (groupInfoArray (groupedLoop d gs n)) = groupKeys gs"
  by (simp add: groupedLoop_def groups_fold_names initialLoop_def)




lemma grouped_layout_Inr:
  assumes "gb \<noteq> ''none''" and "groupsOf gb chars = Inr gs"
  shows "computeLayout d gb chars =
     Inr \<lparr>positions = lpositions (groupedLoop d gs (length chars)),
          groupInfo = Some (groupInfoArray (groupedLoop d gs (length chars))),
          characterGroups = lcharacterGroups (groupedLoop d gs (length chars))\<rparr>"
  using assms by (simp add: computeLayout_def groupedLayout_def Let_def)



lemma sum_list_ratio:
  "(\<Sum>k\<leftarrow>ks. real (f k) / n * u) = real (\<Sum>k\<leftarrow>ks. f k) / n * u"
  by (induction ks) (simp_all add: add_divide_distrib distrib_right)

subsection \<open>The scenario\<close>

lemma scenario_keys_plain: "\<forall>c \<in> set scenarioABCD. keyOf ''species'' c \<notin> set inheritedNames"
  by (simp add: scenarioABCD_def keyOf_def newCharacter_def inheritedNames_def)

lemma scenario_groups:
  "\<exists>gs. groupsOf ''species'' scenarioABCD = Inr gs
     \<and> groupKeys gs = [''Droid'', ''Human'']
     \<and> map (\<lambda>k. length (groupMembers gs k)) (groupKeys gs) = [3, 1]"
proof -
  from scenario_keys_plain obtain gs where gs: "groupsOf ''species'' scenarioABCD = Inr gs"
    using groupsOf_returns_iff [of "''species''" scenarioABCD] by blast
  have "set (groupKeys gs) = set [''Droid'', ''Human'']"
    by (simp add: set_groupKeys [OF gs]) (auto simp add: scenarioABCD_def keyOf_def newCharacter_def)
  moreover have "sorted [''Droid'', ''Human''] \<and> distinct [''Droid'', ''Human'']"
    by simp
  ultimately have keys: "groupKeys gs = [''Droid'', ''Human'']"
    using sorted_groupKeys [of gs] distinct_groupKeys [OF gs]
      sorted_distinct_set_unique [of "groupKeys gs" "[''Droid'', ''Human'']"]
    by blast
  have "map (\<lambda>k. length (groupMembers gs k)) [''Droid'', ''Human''] = [3, 1]"
    by (simp add: groupsOf_Inr(3) [OF gs]) (simp add: scenarioABCD_def keyOf_def newCharacter_def)
  with gs keys show ?thesis by simp
qed

subsection \<open>Spans and gaps\<close>

text \<open>
  C1. For every non-empty entity list and every active grouping under which the reduce
  returns (no entity has an inherited name as its key), the layout exists, and the spans of
  its buckets (each \<open>bucketSize / totalNodes * usableAngle\<close>, the difference of the end
  and start angle the layout emits for it) plus one gap of 0.05 per bucket add up to
  \<open>2 * pi\<close>.
\<close>

theorem spans_and_gaps_fill_circle:
  assumes "chars \<noteq> []" and "gb \<noteq> ''none''"
    and "\<forall>c \<in> set chars. keyOf gb c \<notin> set inheritedNames"
  shows "\<exists>gs l gi. groupsOf gb chars = Inr gs \<and> computeLayout d gb chars = Inr l
    \<and> groupInfo l = Some gi
    \<and> length gi = length (groupKeys gs)
    \<and> map (\<lambda>g. endAngle g - startAngle g) gi =
        map (\<lambda>k. real (length (groupMembers gs k)) / real (length chars) * usableAngle gs)
          (groupKeys gs)
    \<and> usableAngle gs = 2 * pi - 0.05 * real (length (groupKeys gs))
    \<and> (\<Sum>g\<leftarrow>gi. endAngle g - startAngle g) + real (length gi) * gapAngle = 2 * pi"
proof -
  from assms(3) obtain gs where gs: "groupsOf gb chars = Inr gs"
    using groupsOf_returns_iff [of gb chars] by blast
  let ?gi = "groupInfoArray (groupedLoop d gs (length chars))"
  let ?l = "\<lparr>positions = lpositions (groupedLoop d gs (length chars)),
          groupInfo = Some ?gi,
          characterGroups = lcharacterGroups (groupedLoop d gs (length chars))\<rparr>"
  have lay: "computeLayout d gb chars = Inr ?l"
    using assms(2) gs by (rule grouped_layout_Inr)
  have info: "groupInfo ?l = Some ?gi"
    by simp
  have spans: "map (\<lambda>g. endAngle g - startAngle g) ?gi =
        map (\<lambda>k. real (length (groupMembers gs k)) / real (length chars) * usableAngle gs)
          (groupKeys gs)"
    by (simp add: grouped_spans groupAngleSpan_def)
  have usable: "usableAngle gs = 2 * pi - 0.05 * real (length (groupKeys gs))"
    by (simp add: usableAngle_def gapAngle_def)
  have len: "length ?gi = length (groupKeys gs)"
    using arg_cong [OF grouped_names [of d gs "length chars"], of length] by simp
  have pos: "real (length chars) \<noteq> 0"
    using assms(1) by simp
  have "(\<Sum>g\<leftarrow>?gi. endAngle g - startAngle g) =
        real (\<Sum>k\<leftarrow>groupKeys gs. length (groupMembers gs k)) / real (length chars)
          * usableAngle gs"
    by (simp only: spans sum_list_ratio)
  also have "\<dots> = usableAngle gs"
    using pos by (simp add: sum_group_sizes [OF gs])
  finally have total: "(\<Sum>g\<leftarrow>?gi. endAngle g - startAngle g) = usableAngle gs" .
  have "(\<Sum>g\<leftarrow>?gi. endAngle g - startAngle g) + real (length ?gi) * gapAngle = 2 * pi"
    unfolding total len by (simp add: usableAngle_def)
  with gs lay info len spans usable show ?thesis by blast
qed

theorem spans_and_gaps_fill_circle_witness:
  "\<exists>l gi. computeLayout \<lparr>width = 800, height = 600\<rparr> ''species'' scenarioABCD = Inr l
     \<and> groupInfo l = Some gi \<and> length gi = 2
     \<and> (\<Sum>g\<leftarrow>gi. endAngle g - startAngle g) + 2 * gapAngle = 2 * pi"
proof -
  have "scenarioABCD \<noteq> []" by (simp add: scenarioABCD_def)
  moreover have "''species'' \<noteq> ''none''" by simp
  ultimately obtain gs l gi where gs: "groupsOf ''species'' scenarioABCD = Inr gs"
    and l: "computeLayout \<lparr>width = 800, height = 600\<rparr> ''species'' scenarioABCD = Inr l"
      "groupInfo l = Some gi"
    and len: "length gi = length (groupKeys gs)"
    and total: "(\<Sum>g\<leftarrow>gi. endAngle g - startAngle g) + real (length gi) * gapAngle = 2 * pi"
    using spans_and_gaps_fill_circle [OF _ _ scenario_keys_plain, of "\<lparr>width = 800, height = 600\<rparr>"]
    by blast
  from scenario_groups gs have "length (groupKeys gs) = 2" by auto
  with len total have "length gi = 2"
    and "(\<Sum>g\<leftarrow>gi. endAngle g - startAngle g) + 2 * gapAngle = 2 * pi"
    by simp_all
  with l show ?thesis by blast
qed

subsection \<open>Buckets\<close>

text \<open>
  C2. Whenever the reduce returns (no entity has an inherited name as its key): the group
  keys are emitted in strictly ascending lexicographic order, and they are the keys of the
  entities; the bucket of a key is the input sequence filtered by that key, so every entity
  is in the bucket of its key and two entities of one bucket keep their input order. The
  key of an entity under species, gender and films is its species, its gender and its
  number of films followed by \<open>films\<close>, and \<open>Unknown\<close> when it lacks the attribute.
\<close>

theorem grouping_stable_partition:
  assumes "\<forall>c \<in> set chars. keyOf gb c \<notin> set inheritedNames"
  shows "\<exists>gs. groupsOf gb chars = Inr gs
    \<and> sorted (groupKeys gs)
    \<and> distinct (groupKeys gs)
    \<and> set (groupKeys gs) = keyOf gb ` set chars
    \<and> map gname (groupInfoArray (groupedLoop d gs (length chars))) = groupKeys gs
    \<and> (\<forall>k. groupMembers gs k = filter (\<lambda>c. keyOf gb c = k) chars)
    \<and> (\<forall>c \<in> set chars. c \<in> set (groupMembers gs (keyOf gb c)))
    \<and> (\<forall>c. keyOf ''species'' c = (if species c = '''' then ''Unknown'' else species c)
          \<and> keyOf ''gender'' c = (if gender c = '''' then ''Unknown'' else gender c)
          \<and> keyOf ''films'' c =
              (if films c = [] then ''Unknown'' else toString (length (films c)) @ '' films''))"
proof -
  from assms obtain gs where gs: "groupsOf gb chars = Inr gs"
    using groupsOf_returns_iff [of gb chars] by blast
  have members: "\<forall>k. groupMembers gs k = filter (\<lambda>c. keyOf gb c = k) chars"
    by (simp add: groupsOf_Inr(3) [OF gs])
  then have own: "\<forall>c \<in> set chars. c \<in> set (groupMembers gs (keyOf gb c))"
    by simp
  have pins: "\<forall>c. keyOf ''species'' c = (if species c = '''' then ''Unknown'' else species c)
          \<and> keyOf ''gender'' c = (if gender c = '''' then ''Unknown'' else gender c)
          \<and> keyOf ''films'' c =
              (if films c = [] then ''Unknown'' else toString (length (films c)) @ '' films'')"
    by (simp add: keyOf_def)
  from gs sorted_groupKeys [of gs] distinct_groupKeys [OF gs] set_groupKeys [OF gs]
    grouped_names [of d gs "length chars"] members own pins
  show ?thesis by blast
qed

theorem grouping_stable_partition_witness:
  "\<exists>gs. groupsOf ''species''
          [(newCharacter ''A'')\<lparr>species := ''Human''\<rparr>, newCharacter ''B'',
           (newCharacter ''C'')\<lparr>species := ''Droid''\<rparr>, (newCharacter ''D'')\<lparr>species := ''Human''\<rparr>]
        = Inr gs
     \<and> groupKeys gs = [''Droid'', ''Human'', ''Unknown'']
     \<and> groupMembers gs ''Droid'' = [(newCharacter ''C'')\<lparr>species := ''Droid''\<rparr>]
     \<and> groupMembers gs ''Human'' =
         [(newCharacter ''A'')\<lparr>species := ''Human''\<rparr>, (newCharacter ''D'')\<lparr>species := ''Human''\<rparr>]
     \<and> groupMembers gs ''Unknown'' = [newCharacter ''B'']
     \<and> keyOf ''films'' ((newCharacter ''E'')\<lparr>films := [''f1'', ''f2'']\<rparr>) = ''2 films''"
proof -
  let ?cs = "[(newCharacter ''A'')\<lparr>species := ''Human''\<rparr>, newCharacter ''B'',
           (newCharacter ''C'')\<lparr>species := ''Droid''\<rparr>, (newCharacter ''D'')\<lparr>species := ''Human''\<rparr>]"
  have plain: "\<forall>c \<in> set ?cs. keyOf ''species'' c \<notin> set inheritedNames"
    by (simp add: keyOf_def newCharacter_def inheritedNames_def)
  from grouping_stable_partition [OF plain, of "\<lparr>width = 800, height = 600\<rparr>"]
  obtain gs where gs: "groupsOf ''species'' ?cs = Inr gs"
    and sorted: "sorted (groupKeys gs)" "distinct (groupKeys gs)"
    and keys: "set (groupKeys gs) = keyOf ''species'' ` set ?cs"
    and members: "\<forall>k. groupMembers gs k = filter (\<lambda>c. keyOf ''species'' c = k) ?cs"
    and films: "\<forall>c. keyOf ''films'' c =
              (if films c = [] then ''Unknown'' else toString (length (films c)) @ '' films'')"
    by blast
  have "set (groupKeys gs) = set [''Droid'', ''Human'', ''Unknown'']"
    unfolding keys by (auto simp add: keyOf_def newCharacter_def)
  moreover have "sorted [''Droid'', ''Human'', ''Unknown'']
      \<and> distinct [''Droid'', ''Human'', ''Unknown'']"
    by simp
  ultimately have k: "groupKeys gs = [''Droid'', ''Human'', ''Unknown'']"
    using sorted sorted_distinct_set_unique [of "groupKeys gs" "[''Droid'', ''Human'', ''Unknown'']"]
    by blast
  have m1: "groupMembers gs ''Droid'' = [(newCharacter ''C'')\<lparr>species := ''Droid''\<rparr>]"
    using members by (simp add: keyOf_def newCharacter_def)
  have m2: "groupMembers gs ''Human'' =
         [(newCharacter ''A'')\<lparr>species := ''Human''\<rparr>, (newCharacter ''D'')\<lparr>species := ''Human''\<rparr>]"
    using members by (simp add: keyOf_def newCharacter_def)
  have m3: "groupMembers gs ''Unknown'' = [newCharacter ''B'']"
    using members by (simp add: keyOf_def newCharacter_def)
  have f: "keyOf ''films'' ((newCharacter ''E'')\<lparr>films := [''f1'', ''f2'']\<rparr>) = ''2 films''"
    using films by (simp add: newCharacter_def)
  from gs k m1 m2 m3 f show ?thesis by blast
qed

subsection \<open>Positions\<close>



subsection \<open>Two buckets of three and one\<close>

lemma two_bucket_layout:
  assumes gs: "groupsOf gb chars = Inr gs"
    and sizes: "map (\<lambda>k. length (groupMembers gs k)) (groupKeys gs) = [3, 1]"
  shows "map (\<lambda>g. (startAngle g, endAngle g)) (groupInfoArray (groupedLoop d gs (length chars))) =
           [(- pi / 2, - pi / 2 + 3 / 4 * (2 * pi - 2 * 0.05)),
            (- pi / 2 + 3 / 4 * (2 * pi - 2 * 0.05) + 0.05,
             - pi / 2 + 3 / 4 * (2 * pi - 2 * 0.05) + 0.05 + 1 / 4 * (2 * pi - 2 * 0.05))]"
    and "length chars = 4"
proof -
  from sizes obtain k1 k2 where keys: "groupKeys gs = [k1, k2]"
    and n1: "length (groupMembers gs k1) = 3" and n2: "length (groupMembers gs k2) = 1"
    by (auto simp add: map_eq_Cons_conv)
  from sum_group_sizes [OF gs] keys n1 n2 show total: "length chars = 4"
    by simp
  have usable: "usableAngle gs = 2 * pi - 2 * 0.05"
    by (simp add: usableAngle_def gapAngle_def keys)
  have s1: "groupAngleSpan gs 4 k1 = 3 / 4 * (2 * pi - 2 * 0.05)"
    by (simp add: groupAngleSpan_def n1 usable)
  have s2: "groupAngleSpan gs 4 k2 = 1 / 4 * (2 * pi - 2 * 0.05)"
    by (simp add: groupAngleSpan_def n2 usable)
  have "groupedLoop d gs (length chars) =
        placeGroup d gs 4 (placeGroup d gs 4 initialLoop (0, k1)) (1, k2)"
    by (simp add: groupedLoop_def keys total)
  then show "map (\<lambda>g. (startAngle g, endAngle g))
          (groupInfoArray (groupedLoop d gs (length chars))) =
           [(- pi / 2, - pi / 2 + 3 / 4 * (2 * pi - 2 * 0.05)),
            (- pi / 2 + 3 / 4 * (2 * pi - 2 * 0.05) + 0.05,
             - pi / 2 + 3 / 4 * (2 * pi - 2 * 0.05) + 0.05 + 1 / 4 * (2 * pi - 2 * 0.05))]"
    by (simp add: placeGroup_info placeGroup_angle s1 s2 initialLoop_def gapAngle_def)
qed

lemma two_bucket_spans:
  assumes "gb \<noteq> ''none''" and gs: "groupsOf gb chars = Inr gs"
    and sizes: "map (\<lambda>k. length (groupMembers gs k)) (groupKeys gs) = [3, 1]"
  shows "bucketSpans (computeLayout d gb chars) =
           [3 / 4 * (2 * pi - 2 * 0.05), 1 / 4 * (2 * pi - 2 * 0.05)]"
proof -
  from two_bucket_layout(1) [OF gs sizes, of d]
  have "map (\<lambda>g. endAngle g - startAngle g) (groupInfoArray (groupedLoop d gs (length chars))) =
        [3 / 4 * (2 * pi - 2 * 0.05), 1 / 4 * (2 * pi - 2 * 0.05)]"
    by (auto simp add: map_eq_Cons_conv)
  then show ?thesis
    by (simp add: bucketSpans_def grouped_layout_Inr [OF assms(1) gs])
qed

text \<open>
  C6. The claim: with buckets of sizes 3 and 1 the spans are three quarters and one quarter
  of \<open>2 * pi - 0.05\<close>, with a single gap. The layout reserves one gap per bucket, so
  the spans are fractions of \<open>2 * pi - 2 * 0.05\<close>.
\<close>

theorem single_gap_spans_refuted:
  "bucketSpans (computeLayout \<lparr>width = 800, height = 600\<rparr> ''species'' scenarioABCD)
     = [3 / 4 * (2 * pi - 2 * 0.05), 1 / 4 * (2 * pi - 2 * 0.05)]
   \<and> bucketSpans (computeLayout \<lparr>width = 800, height = 600\<rparr> ''species'' scenarioABCD)
     \<noteq> [3 / 4 * (2 * pi - 0.05), 1 / 4 * (2 * pi - 0.05)]"
proof -
  from scenario_groups obtain gs where gs: "groupsOf ''species'' scenarioABCD = Inr gs"
    and sizes: "map (\<lambda>k. length (groupMembers gs k)) (groupKeys gs) = [3, 1]"
    by auto
  have "''species'' \<noteq> ''none''" by simp
  from two_bucket_spans [OF this gs sizes, of "\<lparr>width = 800, height = 600\<rparr>"]
  show ?thesis by simp
qed

text \<open>
  C6, as the code has it: with two buckets of sizes 3 and 1 there are four entities, the
  first bucket spans \<open>3/4 * (2 * pi - 2 * 0.05)\<close> from the angle \<open>- pi / 2\<close>, the second
  spans \<open>1/4 * (2 * pi - 2 * 0.05)\<close>, a gap of 0.05 lies between the end of the first and
  the start of the second, and a second gap of 0.05 between the end of the second and the
  start of the first, one turn later.
\<close>

theorem two_buckets_three_one:
  assumes "gb \<noteq> ''none''" and "groupsOf gb chars = Inr gs"
    and "map (\<lambda>k. length (groupMembers gs k)) (groupKeys gs) = [3, 1]"
  shows "length chars = 4
    \<and> (\<exists>l. computeLayout d gb chars = Inr l
          \<and> groupInfo l = Some (groupInfoArray (groupedLoop d gs 4)))
    \<and> bucketSpans (computeLayout d gb chars) =
           [3 / 4 * (2 * pi - 2 * 0.05), 1 / 4 * (2 * pi - 2 * 0.05)]
    \<and> map (\<lambda>g. (startAngle g, endAngle g)) (groupInfoArray (groupedLoop d gs 4)) =
           [(- pi / 2, - pi / 2 + 3 / 4 * (2 * pi - 2 * 0.05)),
            (- pi / 2 + 3 / 4 * (2 * pi - 2 * 0.05) + 0.05,
             - pi / 2 + 3 / 4 * (2 * pi - 2 * 0.05) + 0.05 + 1 / 4 * (2 * pi - 2 * 0.05))]
    \<and> startAngle (groupInfoArray (groupedLoop d gs 4) ! 1)
        - endAngle (groupInfoArray (groupedLoop d gs 4) ! 0) = 0.05
    \<and> startAngle (groupInfoArray (groupedLoop d gs 4) ! 0) + 2 * pi
        - endAngle (groupInfoArray (groupedLoop d gs 4) ! 1) = 0.05"
proof -
  let ?gi = "groupInfoArray (groupedLoop d gs 4)"
  have total: "length chars = 4"
    using assms(2,3) by (rule two_bucket_layout(2))
  from two_bucket_layout(1) [OF assms(2,3), of d] total
  have angles: "map (\<lambda>g. (startAngle g, endAngle g)) ?gi =
           [(- pi / 2, - pi / 2 + 3 / 4 * (2 * pi - 2 * 0.05)),
            (- pi / 2 + 3 / 4 * (2 * pi - 2 * 0.05) + 0.05,
             - pi / 2 + 3 / 4 * (2 * pi - 2 * 0.05) + 0.05 + 1 / 4 * (2 * pi - 2 * 0.05))]"
    by simp
  then obtain g1 g2 where gi: "?gi = [g1, g2]"
    and g1: "startAngle g1 = - pi / 2" "endAngle g1 = - pi / 2 + 3 / 4 * (2 * pi - 2 * 0.05)"
    and g2: "startAngle g2 = - pi / 2 + 3 / 4 * (2 * pi - 2 * 0.05) + 0.05"
      "endAngle g2 = - pi / 2 + 3 / 4 * (2 * pi - 2 * 0.05) + 0.05 + 1 / 4 * (2 * pi - 2 * 0.05)"
    by (auto simp add: map_eq_Cons_conv)
  have info: "\<exists>l. computeLayout d gb chars = Inr l \<and> groupInfo l = Some ?gi"
    using grouped_layout_Inr [OF assms(1,2), of d] total by simp
  have spans: "bucketSpans (computeLayout d gb chars) =
           [3 / 4 * (2 * pi - 2 * 0.05), 1 / 4 * (2 * pi - 2 * 0.05)]"
    using assms by (rule two_bucket_spans)
  have gap1: "startAngle (?gi ! 1) - endAngle (?gi ! 0) = 0.05"
    by (simp add: gi g1 g2)
  have gap2: "startAngle (?gi ! 0) + 2 * pi - endAngle (?gi ! 1) = 0.05"
    by (simp add: gi g1 g2 field_simps)
  from total info spans angles gap1 gap2 show ?thesis
    by blast
qed

theorem two_buckets_three_one_witness:
  "bucketSpans (computeLayout \<lparr>width = 800, height = 600\<rparr> ''species'' scenarioABCD)
     = [3 / 4 * (2 * pi - 2 * 0.05), 1 / 4 * (2 * pi - 2 * 0.05)]
   \<and> length scenarioABCD = 4"
proof -
  from scenario_groups obtain gs where gs: "groupsOf ''species'' scenarioABCD = Inr gs"
    and sizes: "map (\<lambda>k. length (groupMembers gs k)) (groupKeys gs) = [3, 1]"
    by auto
  have "''species'' \<noteq> ''none''" by simp
  from two_buckets_three_one [OF this gs sizes, of "\<lparr>width = 800, height = 600\<rparr>"]
  show ?thesis by blast
qed

end
